theory Spec2Isabelle
  imports Main "HOL-Library.AList" "HOL-Library.Sublist"
begin

section \<open>The gather-and-translate pipeline of the Rancher exporter (gather.go)\<close>

text \<open>
  A shallow embedding of \<^verbatim>\<open>gather.go\<close>. Conventions:
  \<^item> a Go \<^verbatim>\<open>map[string]string\<close> that the code ranges over is an association list whose
    order is the order in which the \<^verbatim>\<open>range\<close> loop visits the entries (Go leaves that order
    unspecified; the keys of a Go map are distinct);
  \<^item> a map that the code builds and hands on is a partial function; the nil map is \<open>None\<close>;
  \<^item> a pointer that may be nil is an \<open>option\<close>; a nil dereference is the outcome \<open>Panic\<close>;
  \<^item> a Go \<^verbatim>\<open>error\<close> is its message;
  \<^item> the Info, Warn and Error calls of the logger are recorded in a log; the Debug calls and
    the exporter's self-instrumentation (package \<^verbatim>\<open>measure\<close>) are diagnostic only and left out;
  \<^item> the metric emitters (\<^verbatim>\<open>setHostStateMetrics\<close> and the others) and \<^verbatim>\<open>checkMetric\<close> live in
    other files of the repository: a call of an emitter is recorded with its arguments, and
    \<^verbatim>\<open>checkMetric\<close> is a parameter.
\<close>

subsection \<open>Data model\<close>

type_synonym error = string

type_synonym gomap = "(string \<times> string) list"

type_synonym labels = "string \<rightharpoonup> string"

record MountPoint =
  Total :: int
  Used :: int

record HostInfo =
  CPUInfo_Count :: int
  MemoryInfo_MemTotal :: int
  MemoryInfo_MemFree :: int
  DiskInfo_MountPoints :: "(string \<times> MountPoint) list"

record LaunchConfig =
  LaunchConfig_Labels :: gomap

record Condition =
  Condition_Status :: string

record ComponentStatuses =
  Conditions :: "Condition option list"
  ComponentStatuses_Name :: string

text \<open>One element of the \<^verbatim>\<open>Data\<close> slice of the Go struct \<^verbatim>\<open>Data\<close>.\<close>

record DataItem =
  HealthState :: string
  Name :: string
  State :: string
  System :: bool
  Scale :: int
  HostName :: string
  ID :: string
  StackID :: string
  EnvID :: string
  BaseType :: string
  Type :: string
  AgentState :: string
  Labels :: gomap
  ClusterID :: string
  NodeName :: string
  HostInfo :: "HostInfo option"
  LaunchConfig :: "LaunchConfig option"
  ComponentStatuses :: "ComponentStatuses option list"

record Data =
  Data :: "DataItem list"

text \<open>The exporter: of its fields the code here reads the compiled label pattern only,
  through \<^verbatim>\<open>labelsFilter.MatchString\<close>.\<close>

record Exporter =
  labelsFilter_MatchString :: "string \<Rightarrow> bool"

datatype log_entry = Info string | Warn string | Error string

text \<open>The zero value of the element struct: what decoding the JSON object \<^verbatim>\<open>{}\<close> gives.\<close>

definition zeroDataItem :: DataItem where
  "zeroDataItem =
     \<lparr>HealthState = '''', Name = '''', State = '''', System = False, Scale = 0, HostName = '''',
      ID = '''', StackID = '''', EnvID = '''', BaseType = '''', Type = '''', AgentState = '''',
      Labels = [], ClusterID = '''', NodeName = '''', HostInfo = None, LaunchConfig = None,
      ComponentStatuses = []\<rparr>"

subsection \<open>setEndpoint\<close>

text \<open>\<^verbatim>\<open>strings.Replace(s, old, new, 1)\<close> of the Go library: the first instance of \<open>old\<close> in
  \<open>s\<close> is replaced by \<open>new\<close>; an empty \<open>old\<close> matches at the beginning of the string.\<close>

fun strings_Replace_1 :: "string \<Rightarrow> string \<Rightarrow> string \<Rightarrow> string" where
  "strings_Replace_1 [] old new = (if old = [] then new else [])"
| "strings_Replace_1 (c # cs) old new =
     (if prefix old (c # cs) then new @ drop (length old) (c # cs)
      else c # strings_Replace_1 cs old new)"

definition setEndpoint :: "string \<Rightarrow> string \<Rightarrow> string \<Rightarrow> string" where
  "setEndpoint rancherURL component resourceLimit =
     (let endpoint = rancherURL @ ''/'' @ component @ ''/'' @ ''?limit='' @ resourceLimit
      in strings_Replace_1 endpoint ''v1'' ''v2-beta'')"

subsection \<open>The reference caches\<close>

text \<open>\<^verbatim>\<open>stackRef[stackID] = stackName\<close> on the global map; the updated map is returned. The
  global maps \<^verbatim>\<open>stackRef\<close> and \<^verbatim>\<open>clusterRef\<close> are declared in another file of the repository;
  they are taken to be initialised, so a cache is a value of \<open>gomap\<close>.\<close>

definition storeStackRef :: "gomap \<Rightarrow> string \<Rightarrow> string \<Rightarrow> gomap" where
  "storeStackRef stackRef stackID stackName = AList.update stackID stackName stackRef"

text \<open>The range loop over the global map, entry by entry.\<close>

fun retrieveStackRef :: "gomap \<Rightarrow> string \<Rightarrow> string" where
  "retrieveStackRef [] stackID = ''unknown''"
| "retrieveStackRef ((key, v) # rest) stackID =
     (if stackID = '''' then ''unknown''
      else if stackID = key then v
      else retrieveStackRef rest stackID)"

definition storeClusterRef :: "gomap \<Rightarrow> string \<Rightarrow> string \<Rightarrow> gomap" where
  "storeClusterRef clusterRef clusterID clusterName = AList.update clusterID clusterName clusterRef"

fun retrieveClusterRef :: "gomap \<Rightarrow> string \<Rightarrow> string" where
  "retrieveClusterRef [] clusterID = ''unknown''"
| "retrieveClusterRef ((key, v) # rest) clusterID =
     (if clusterID = '''' then ''unknown''
      else if clusterID = key then v
      else retrieveClusterRef rest clusterID)"

subsection \<open>allowedLabels\<close>

text \<open>The loop of \<^verbatim>\<open>allowedLabels\<close>: \<open>result\<close> is the map built so far.\<close>

fun allowedLabels_loop :: "Exporter \<Rightarrow> gomap \<Rightarrow> labels \<Rightarrow> labels" where
  "allowedLabels_loop e [] result = result"
| "allowedLabels_loop e ((name, val) # rest) result =
     allowedLabels_loop e rest
       (if labelsFilter_MatchString e name then result(name \<mapsto> val) else result)"

definition allowedLabels :: "Exporter \<Rightarrow> gomap \<Rightarrow> labels" where
  "allowedLabels e labels = allowedLabels_loop e labels Map.empty"

subsection \<open>processMetrics\<close>

text \<open>A call of one of the metric emitters, with its arguments.\<close>

datatype call =
    setHostStateMetrics string string string "labels option"
  | setHostInfoMetrics string HostInfo "labels option"
  | setStackMetrics string string string string
  | setServiceMetrics string string string string int "labels option"
  | setClusterMetrics string string "ComponentStatuses option list"
  | setNodeMetrics string string string

text \<open>The state that \<^verbatim>\<open>processMetrics\<close> works on: the two global reference maps, the
  emitter calls made so far and the log.\<close>

record exporter_state =
  stackRef :: gomap
  clusterRef :: gomap
  metrics :: "call list"
  logged :: "log_entry list"

definition emit :: "call \<Rightarrow> exporter_state \<Rightarrow> exporter_state" where
  "emit c st = st\<lparr>metrics := metrics st @ [c]\<rparr>"

definition log_Warnf :: "string \<Rightarrow> exporter_state \<Rightarrow> exporter_state" where
  "log_Warnf msg st = st\<lparr>logged := logged st @ [Warn msg]\<rparr>"

definition strconv_FormatBool :: "bool \<Rightarrow> string" where
  "strconv_FormatBool b = (if b then ''true'' else ''false'')"

definition dataType :: "DataItem \<Rightarrow> string" where
  "dataType x = (if BaseType x = '''' then Type x else BaseType x)"

text \<open>The body of the loop, for the record \<open>x\<close>. The local variable \<open>filteredLabels\<close> lives
  across the iterations, so it is part of what an iteration takes and returns.\<close>

definition processMetrics_body ::
  "Exporter \<Rightarrow> (string \<Rightarrow> string \<Rightarrow> bool) \<Rightarrow> string \<Rightarrow> bool \<Rightarrow> DataItem \<Rightarrow>
   labels option \<times> exporter_state \<Rightarrow> labels option \<times> exporter_state" where
  "processMetrics_body e checkMetric endpoint hideSys x s =
     (case s of (filteredLabels, st) \<Rightarrow>
        if hideSys \<and> System x then (filteredLabels, st)
        else if \<not> checkMetric endpoint (dataType x) then (filteredLabels, st)
        else if endpoint = ''hosts'' then
          (let filteredLabels = Some (allowedLabels e (Labels x));
               s = (if Name x \<noteq> '''' then Name x else HostName x);
               st = emit (setHostStateMetrics s (State x) (AgentState x) filteredLabels) st;
               st = (case HostInfo x of
                       None \<Rightarrow> st
                     | Some info \<Rightarrow> emit (setHostInfoMetrics s info filteredLabels) st)
           in (filteredLabels, st))
        else if endpoint = ''stacks'' then
          (let st = st\<lparr>stackRef := storeStackRef (stackRef st) (ID x) (Name x)\<rparr>;
               st = emit (setStackMetrics (Name x) (State x) (HealthState x)
                            (strconv_FormatBool (System x))) st
           in (filteredLabels, st))
        else if endpoint = ''services'' then
          (let stackName = retrieveStackRef (stackRef st) (StackID x);
               st = (if stackName = ''unknown''
                     then log_Warnf (''Failed to obtain stack_name for '' @ Name x @ '' from the API'') st
                     else st);
               filteredLabels =
                 (case LaunchConfig x of
                    None \<Rightarrow> filteredLabels
                  | Some lc \<Rightarrow>
                      if length (LaunchConfig_Labels lc) > 0
                      then Some (allowedLabels e (LaunchConfig_Labels lc))
                      else filteredLabels);
               st = emit (setServiceMetrics (Name x) stackName (State x) (HealthState x) (Scale x)
                            filteredLabels) st
           in (filteredLabels, st))
        else if endpoint = ''clusters'' then
          (let st = st\<lparr>clusterRef := storeClusterRef (clusterRef st) (ID x) (Name x)\<rparr>;
               st = emit (setClusterMetrics (Name x) (State x) (ComponentStatuses x)) st
           in (filteredLabels, st))
        else if endpoint = ''nodes'' then
          (let clusterName = retrieveClusterRef (clusterRef st) (ClusterID x);
               st = (if clusterName = ''unknown''
                     then log_Warnf (''Failed to obtain cluster_name for '' @ NodeName x @ '' from the API'') st
                     else st);
               st = emit (setNodeMetrics (NodeName x) (State x) clusterName) st
           in (filteredLabels, st))
        else (filteredLabels, st))"

fun processMetrics_loop ::
  "Exporter \<Rightarrow> (string \<Rightarrow> string \<Rightarrow> bool) \<Rightarrow> string \<Rightarrow> bool \<Rightarrow> DataItem list \<Rightarrow>
   labels option \<times> exporter_state \<Rightarrow> labels option \<times> exporter_state" where
  "processMetrics_loop e checkMetric endpoint hideSys [] s = s"
| "processMetrics_loop e checkMetric endpoint hideSys (x # xs) s =
     processMetrics_loop e checkMetric endpoint hideSys xs
       (processMetrics_body e checkMetric endpoint hideSys x s)"

text \<open>\<^verbatim>\<open>processMetrics\<close>: \<open>filteredLabels\<close> starts as the nil map; the error returned is
  always nil.\<close>

definition processMetrics ::
  "Exporter \<Rightarrow> (string \<Rightarrow> string \<Rightarrow> bool) \<Rightarrow> Data \<Rightarrow> string \<Rightarrow> bool \<Rightarrow> exporter_state \<Rightarrow>
   error option \<times> exporter_state" where
  "processMetrics e checkMetric data endpoint hideSys st =
     (None, snd (processMetrics_loop e checkMetric endpoint hideSys (Data data) (None, st)))"

text \<open>Vocabulary for the statements below: a record is dispatched to its endpoint's branch
  when neither the system-resource filter nor the type check skips it; the labels of its
  launch configuration, none when there is no launch configuration.\<close>

definition dispatched :: "(string \<Rightarrow> string \<Rightarrow> bool) \<Rightarrow> string \<Rightarrow> bool \<Rightarrow> DataItem \<Rightarrow> bool" where
  "dispatched checkMetric endpoint hideSys x =
     (\<not> (hideSys \<and> System x) \<and> checkMetric endpoint (dataType x))"

definition launchLabels :: "DataItem \<Rightarrow> gomap" where
  "launchLabels x = (case LaunchConfig x of None \<Rightarrow> [] | Some lc \<Rightarrow> LaunchConfig_Labels lc)"

text \<open>A type check that accepts every record, for concrete instances.\<close>

definition acceptAll :: "string \<Rightarrow> string \<Rightarrow> bool" where
  "acceptAll endpoint baseType = True"

definition emptyState :: exporter_state where
  "emptyState = \<lparr>stackRef = [], clusterRef = [], metrics = [], logged = []\<rparr>"

subsection \<open>getJSON and gatherData\<close>

datatype 'a outcome = Panic | Return 'a

text \<open>What the HTTP and JSON libraries give back during one call of \<^verbatim>\<open>getJSON\<close>:
  the response (status code, status line, and the result of decoding its body into the
  target: an error, or the value the target pointer holds afterwards, which is nil when the
  body is the JSON value \<^verbatim>\<open>null\<close>), the error of \<^verbatim>\<open>http.NewRequest\<close> (the request is
  nil exactly when there is one), and the response and error of \<^verbatim>\<open>client.Do\<close>.\<close>

record Response =
  StatusCode :: int
  Status :: string
  Body_Decode :: "error + Data option"

record HTTP =
  NewRequest_err :: "error option"
  Do_resp :: "Response option"
  Do_err :: "error option"

text \<open>\<^verbatim>\<open>getJSON\<close> returns the log it wrote and either panics or returns: \<open>Inl err\<close> is a
  non-nil error, \<open>Inr d\<close> is the nil error with the target pointer left at \<open>d\<close>. The two
  error checks log and go on. After a failed \<^verbatim>\<open>http.NewRequest\<close> the request is nil and
  \<^verbatim>\<open>req.SetBasicAuth\<close> dereferences it; when \<^verbatim>\<open>client.Do\<close> gives no response,
  \<^verbatim>\<open>resp.StatusCode\<close> dereferences nil. The status check logs and goes on to the decoder,
  whose result is what \<^verbatim>\<open>getJSON\<close> returns. Closing the body is not modelled.\<close>

definition getJSON :: "string \<Rightarrow> string \<Rightarrow> string \<Rightarrow> HTTP \<Rightarrow> log_entry list \<times> (error + Data option) outcome" where
  "getJSON url accessKey secretKey http =
     (let lg = [Info (''Scraping: '' @ url)];
          lg = (case NewRequest_err http of
                  Some err \<Rightarrow> lg @ [Error (''Error Collecting JSON from API: '' @ err)]
                | None \<Rightarrow> lg)
      in case NewRequest_err http of
           Some err \<Rightarrow> (lg, Panic)
         | None \<Rightarrow>
             (let lg = (case Do_err http of
                          Some err \<Rightarrow> lg @ [Error (''Error Collecting JSON from API: '' @ err)]
                        | None \<Rightarrow> lg)
              in case Do_resp http of
                   None \<Rightarrow> (lg, Panic)
                 | Some resp \<Rightarrow>
                     (let lg = (if StatusCode resp \<noteq> 200
                                then lg @ [Error (''Error Collecting JSON from API: '' @ Status resp)]
                                else lg)
                      in (lg, Return (Body_Decode resp)))))"

text \<open>\<^verbatim>\<open>gatherData\<close> returns the pair (data, err) of the source. It hands \<^verbatim>\<open>&data\<close> to
  \<^verbatim>\<open>getJSON\<close>, so after a nil error \<open>data\<close> is whatever the decoder left in the pointer.\<close>

definition gatherData ::
  "string \<Rightarrow> string \<Rightarrow> string \<Rightarrow> string \<Rightarrow> string \<Rightarrow> HTTP \<Rightarrow>
   log_entry list \<times> (Data option \<times> error option) outcome" where
  "gatherData rancherURL resourceLimit accessKey secretKey endpoint http =
     (let url = setEndpoint rancherURL endpoint resourceLimit
      in case getJSON url accessKey secretKey http of
           (lg, Panic) \<Rightarrow> (lg, Panic)
         | (lg, Return (Inl err)) \<Rightarrow>
             (lg @ [Error (''Error getting JSON from endpoint '' @ endpoint)], Return (None, Some err))
         | (lg, Return (Inr data)) \<Rightarrow> (lg, Return (data, None)))"

section \<open>Properties\<close>

subsection \<open>setEndpoint\<close>

lemma strings_Replace_1_absent:
  "\<not> sublist old s \<Longrightarrow> strings_Replace_1 s old new = s"
  by (induction s old new rule: strings_Replace_1.induct) (auto simp: sublist_Cons_right)

lemma prefix_overlap:
  assumes "prefix old (x @ old @ post)" "x \<noteq> []" "old \<noteq> []"
  shows "prefix old (x @ butlast old)"
proof -
  have "prefix (x @ butlast old) (x @ (butlast old @ [last old]) @ post)"
    by simp
  then have q: "prefix (x @ butlast old) (x @ old @ post)"
    using assms(3) by simp
  have "length old \<le> length (x @ butlast old)"
    using assms(2,3) by (cases x) auto
  with assms(1) q show ?thesis
    by (rule prefix_length_prefix)
qed

lemma strings_Replace_1_first:
  "\<not> sublist old (pre @ butlast old) \<Longrightarrow> old \<noteq> [] \<Longrightarrow>
   strings_Replace_1 (pre @ old @ post) old new = pre @ new @ post"
proof (induction pre)
  case Nil
  then show ?case by (cases old) auto
next
  case (Cons c pre)
  have np: "\<not> prefix old ((c # pre) @ old @ post)"
  proof
    assume "prefix old ((c # pre) @ old @ post)"
    then have "prefix old ((c # pre) @ butlast old)"
      using Cons.prems(2) by (intro prefix_overlap) auto
    then have "sublist old ((c # pre) @ butlast old)"
      by (rule prefix_imp_sublist)
    with Cons.prems(1) show False by simp
  qed
  have "\<not> sublist old (pre @ butlast old)"
    using Cons.prems(1) by (auto simp: sublist_Cons_right)
  with Cons np show ?case by simp
qed

text \<open>
  C4 at a failing input, a base URL whose host name contains \<open>v1\<close>: the rewrite changes the
  host name and leaves the API-version path segment \<open>v1\<close> as it was, so the result is not
  \<open>{baseURL}/{endpointName}/?limit={resourceLimit}\<close> with that segment, and only that segment,
  rewritten to \<open>v2-beta\<close>.
\<close>

theorem setEndpoint_rewrites_host:
  "setEndpoint ''http://srv1/v1'' ''hosts'' ''100'' = ''http://srv2-beta/v1/hosts/?limit=100'' \<and>
   setEndpoint ''http://srv1/v1'' ''hosts'' ''100'' \<noteq> ''http://srv1/v2-beta/hosts/?limit=100''"
  by (simp add: setEndpoint_def)

text \<open>
  What \<open>setEndpoint\<close> computes: the string \<open>{baseURL}/{endpointName}/?limit={resourceLimit}\<close>
  with the leftmost occurrence of the literal substring \<open>v1\<close> replaced by \<open>v2-beta\<close>, and
  that string unchanged when \<open>v1\<close> does not occur in it. When the leftmost occurrence is the
  API-version path segment, as in \<open>setEndpoint("http://h/v1", "hosts", "100")\<close>, the result
  is the intended one, \<open>"http://h/v2-beta/hosts/?limit=100"\<close>.
\<close>

theorem setEndpoint_first_occurrence:
  "(\<not> sublist ''v1'' (b @ ''/'' @ c @ ''/?limit='' @ l) \<longrightarrow>
      setEndpoint b c l = b @ ''/'' @ c @ ''/?limit='' @ l) \<and>
   (b @ ''/'' @ c @ ''/?limit='' @ l = pre @ ''v1'' @ post \<and> \<not> sublist ''v1'' (pre @ ''v'') \<longrightarrow>
      setEndpoint b c l = pre @ ''v2-beta'' @ post) \<and>
   setEndpoint ''http://h/v1'' ''hosts'' ''100'' = ''http://h/v2-beta/hosts/?limit=100''"
proof (intro conjI impI)
  show "setEndpoint b c l = b @ ''/'' @ c @ ''/?limit='' @ l"
    if "\<not> sublist ''v1'' (b @ ''/'' @ c @ ''/?limit='' @ l)"
    using that by (simp add: setEndpoint_def strings_Replace_1_absent)
  show "setEndpoint b c l = pre @ ''v2-beta'' @ post"
    if h: "b @ ''/'' @ c @ ''/?limit='' @ l = pre @ ''v1'' @ post \<and> \<not> sublist ''v1'' (pre @ ''v'')"
  proof -
    have "\<not> sublist ''v1'' (pre @ butlast ''v1'')"
      using h by simp
    then have "strings_Replace_1 (pre @ ''v1'' @ post) ''v1'' ''v2-beta'' = pre @ ''v2-beta'' @ post"
      by (rule strings_Replace_1_first) simp
    with h show ?thesis
      by (simp add: setEndpoint_def)
  qed
  show "setEndpoint ''http://h/v1'' ''hosts'' ''100'' = ''http://h/v2-beta/hosts/?limit=100''"
    by (simp add: setEndpoint_def)
qed

theorem setEndpoint_first_occurrence_witness:
  "\<not> sublist ''v1'' (''http://h/v3'' @ ''/'' @ ''hosts'' @ ''/?limit='' @ ''100'') \<and>
   setEndpoint ''http://h/v3'' ''hosts'' ''100'' = ''http://h/v3/hosts/?limit=100'' \<and>
   ''http://srv1/v1'' @ ''/'' @ ''hosts'' @ ''/?limit='' @ ''100''
     = ''http://sr'' @ ''v1'' @ ''/v1/hosts/?limit=100'' \<and>
   \<not> sublist ''v1'' (''http://sr'' @ ''v'') \<and>
   setEndpoint ''http://srv1/v1'' ''hosts'' ''100'' = ''http://sr'' @ ''v2-beta'' @ ''/v1/hosts/?limit=100''"
proof -
  have a: "\<not> sublist ''v1'' (''http://h/v3'' @ ''/'' @ ''hosts'' @ ''/?limit='' @ ''100'')"
    by (simp add: sublist_Cons_right)
  have b: "''http://srv1/v1'' @ ''/'' @ ''hosts'' @ ''/?limit='' @ ''100''
             = ''http://sr'' @ ''v1'' @ ''/v1/hosts/?limit=100'' \<and>
           \<not> sublist ''v1'' (''http://sr'' @ ''v'')"
    by (simp add: sublist_Cons_right)
  show ?thesis
    using a b
      setEndpoint_first_occurrence [of "''http://h/v3''" "''hosts''" "''100''"]
      setEndpoint_first_occurrence [of "''http://srv1/v1''" "''hosts''" "''100''" "''http://sr''"
        "''/v1/hosts/?limit=100''"]
    by simp
qed

subsection \<open>The reference caches\<close>

lemma retrieveStackRef_map_of:
  "retrieveStackRef al k =
     (if k = '''' then ''unknown'' else case map_of al k of None \<Rightarrow> ''unknown'' | Some v \<Rightarrow> v)"
  by (induction al k rule: retrieveStackRef.induct) auto

lemma retrieveClusterRef_map_of:
  "retrieveClusterRef al k =
     (if k = '''' then ''unknown'' else case map_of al k of None \<Rightarrow> ''unknown'' | Some v \<Rightarrow> v)"
  by (induction al k rule: retrieveClusterRef.induct) auto

lemma map_of_fold_update:
  "map_of (fold (\<lambda>(k, v) c. AList.update k v c) ops al) = map_of (rev ops @ al)"
proof (induction ops arbitrary: al)
  case Nil
  show ?case by simp
next
  case (Cons p ops)
  obtain k v where p: "p = (k, v)" by (cases p)
  have "map_of (rev ops @ AList.update k v al) = map_of (rev ops @ (k, v) # al)"
    by (rule ext) (simp add: map_add_def update_conv' split: option.splits)
  with Cons show ?case by (simp add: p)
qed

text \<open>
  C5: after any sequence \<open>ops\<close> of \<open>storeStackRef\<close> calls (pairs of id and name, oldest
  first) on any cache \<open>c0\<close>, \<open>retrieveStackRef\<close> returns \<open>"unknown"\<close> for the empty key,
  the name of the most recent store to the key when there is one (\<open>rev ops\<close> is searched
  first, newest store first, then the cache the sequence started from), and \<open>"unknown"\<close> when
  the key was never stored. The result is a value in every case: the function has no error
  return and no panic. The same holds of \<open>storeClusterRef\<close> and \<open>retrieveClusterRef\<close>. The
  result depends on the map only, not on the order in which the range loop visits it.
\<close>

theorem retrieve_last_write_wins:
  "retrieveStackRef (fold (\<lambda>(k, v) c. storeStackRef c k v) ops c0) key =
     (if key = '''' then ''unknown''
      else case map_of (rev ops @ c0) key of None \<Rightarrow> ''unknown'' | Some v \<Rightarrow> v) \<and>
   retrieveClusterRef (fold (\<lambda>(k, v) c. storeClusterRef c k v) ops c0) key =
     (if key = '''' then ''unknown''
      else case map_of (rev ops @ c0) key of None \<Rightarrow> ''unknown'' | Some v \<Rightarrow> v)"
  unfolding storeStackRef_def storeClusterRef_def retrieveStackRef_map_of
    retrieveClusterRef_map_of map_of_fold_update
  by simp

theorem retrieve_last_write_wins_witness:
  "retrieveStackRef (storeStackRef (storeStackRef [] ''1st5'' ''A'') ''1st5'' ''B'') ''1st5'' = ''B'' \<and>
   retrieveStackRef (storeStackRef (storeStackRef [] ''1st5'' ''A'') ''1st5'' ''B'') '''' = ''unknown'' \<and>
   retrieveStackRef (storeStackRef (storeStackRef [] ''1st5'' ''A'') ''1st5'' ''B'') ''1st6'' = ''unknown'' \<and>
   retrieveClusterRef (storeClusterRef (storeClusterRef [] ''c-1'' ''A'') ''c-1'' ''B'') ''c-1'' = ''B''"
  using retrieve_last_write_wins [of "[(''1st5'', ''A''), (''1st5'', ''B'')]" "[]" "''1st5''"]
    retrieve_last_write_wins [of "[(''1st5'', ''A''), (''1st5'', ''B'')]" "[]" "''''"]
    retrieve_last_write_wins [of "[(''1st5'', ''A''), (''1st5'', ''B'')]" "[]" "''1st6''"]
    retrieve_last_write_wins [of "[(''c-1'', ''A''), (''c-1'', ''B'')]" "[]" "''c-1''"]
  by simp

subsection \<open>allowedLabels\<close>

lemma allowedLabels_loop_restrict:
  "distinct (map fst kvs) \<Longrightarrow>
   allowedLabels_loop e kvs result = result ++ (map_of kvs |` {k. labelsFilter_MatchString e k})"
proof (induction kvs arbitrary: result)
  case Nil
  show ?case by simp
next
  case (Cons p kvs)
  obtain name val where p: "p = (name, val)" by (cases p)
  from Cons.prems have fresh: "map_of kvs name = None" and d: "distinct (map fst kvs)"
    by (auto simp: p map_of_eq_None_iff)
  let ?M = "{k. labelsFilter_MatchString e k}"
  show ?case
  proof (cases "labelsFilter_MatchString e name")
    case True
    have "allowedLabels_loop e (p # kvs) result = allowedLabels_loop e kvs (result(name \<mapsto> val))"
      using True by (simp add: p)
    also have "\<dots> = result(name \<mapsto> val) ++ (map_of kvs |` ?M)"
      by (rule Cons.IH [OF d])
    also have "\<dots> = result ++ (map_of (p # kvs) |` ?M)"
    proof (rule ext)
      fix k
      show "(result(name \<mapsto> val) ++ (map_of kvs |` ?M)) k = (result ++ (map_of (p # kvs) |` ?M)) k"
        using fresh True by (cases "k = name") (simp_all add: p map_add_def restrict_map_def split: option.splits)
    qed
    finally show ?thesis .
  next
    case False
    have "allowedLabels_loop e (p # kvs) result = allowedLabels_loop e kvs result"
      using False by (simp add: p)
    also have "\<dots> = result ++ (map_of kvs |` ?M)"
      by (rule Cons.IH [OF d])
    also have "\<dots> = result ++ (map_of (p # kvs) |` ?M)"
    proof (rule ext)
      fix k
      show "(result ++ (map_of kvs |` ?M)) k = (result ++ (map_of (p # kvs) |` ?M)) k"
        using False by (cases "k = name") (simp_all add: p map_add_def restrict_map_def split: option.splits)
    qed
    finally show ?thesis .
  qed
qed

lemma allowedLabels_restrict:
  "distinct (map fst kvs) \<Longrightarrow>
   allowedLabels e kvs = map_of kvs |` {k. labelsFilter_MatchString e k}"
  by (simp add: allowedLabels_def allowedLabels_loop_restrict)

lemma allowedLabels_loop_no_match:
  "\<forall>k \<in> fst ` set kvs. \<not> labelsFilter_MatchString e k \<Longrightarrow> allowedLabels_loop e kvs result = result"
  by (induction kvs arbitrary: result) auto

text \<open>
  C8: for every label map (its entries in any visiting order \<open>kvs\<close>, keys distinct) and
  every pattern, \<open>allowedLabels\<close> returns exactly the restriction of the map to the keys the
  pattern matches, values unchanged; two visiting orders of the same map give the same
  result; the empty map and a map with no matching key give the empty map; the function
  has no error return. The pattern \<open>^a\<close> matches exactly the strings that begin with \<open>a\<close>,
  and \<open>allowedLabels({"a":"1","xb":"2"})\<close> is \<open>{"a":"1"}\<close>.
\<close>

theorem allowedLabels_subset:
  "(distinct (map fst kvs) \<longrightarrow>
      allowedLabels e kvs = map_of kvs |` {k. labelsFilter_MatchString e k}) \<and>
   (distinct (map fst kvs) \<and> distinct (map fst kvs') \<and> set kvs = set kvs' \<longrightarrow>
      allowedLabels e kvs = allowedLabels e kvs') \<and>
   allowedLabels e [] = Map.empty \<and>
   ((\<forall>k \<in> fst ` set kvs. \<not> labelsFilter_MatchString e k) \<longrightarrow> allowedLabels e kvs = Map.empty) \<and>
   allowedLabels \<lparr>labelsFilter_MatchString = prefix ''a''\<rparr> [(''a'', ''1''), (''xb'', ''2'')]
     = [''a'' \<mapsto> ''1'']"
proof (intro conjI impI)
  show "allowedLabels e kvs = map_of kvs |` {k. labelsFilter_MatchString e k}"
    if "distinct (map fst kvs)"
    using that by (rule allowedLabels_restrict)
  show "allowedLabels e kvs = allowedLabels e kvs'"
    if h: "distinct (map fst kvs) \<and> distinct (map fst kvs') \<and> set kvs = set kvs'"
  proof -
    from h have "map_of kvs = map_of kvs'"
      by (simp add: map_of_inject_set)
    with h show ?thesis by (simp add: allowedLabels_restrict)
  qed
  show "allowedLabels e [] = Map.empty"
    by (simp add: allowedLabels_def)
  show "allowedLabels e kvs = Map.empty"
    if "\<forall>k \<in> fst ` set kvs. \<not> labelsFilter_MatchString e k"
    using that by (simp add: allowedLabels_def allowedLabels_loop_no_match)
  show "allowedLabels \<lparr>labelsFilter_MatchString = prefix ''a''\<rparr> [(''a'', ''1''), (''xb'', ''2'')]
     = [''a'' \<mapsto> ''1'']"
    by (simp add: allowedLabels_def)
qed

theorem allowedLabels_subset_witness:
  "distinct (map fst [(''a'', ''1''), (''xb'', ''2'')]) \<and>
   distinct (map fst [(''xb'', ''2''), (''a'', ''1'')]) \<and>
   set [(''a'', ''1''), (''xb'', ''2'')] = set [(''xb'', ''2''), (''a'', ''1'')] \<and>
   allowedLabels \<lparr>labelsFilter_MatchString = prefix ''a''\<rparr> [(''a'', ''1''), (''xb'', ''2'')] =
     map_of [(''a'', ''1''), (''xb'', ''2'')] |` {k. prefix ''a'' k} \<and>
   allowedLabels \<lparr>labelsFilter_MatchString = prefix ''a''\<rparr> [(''a'', ''1''), (''xb'', ''2'')] =
     allowedLabels \<lparr>labelsFilter_MatchString = prefix ''a''\<rparr> [(''xb'', ''2''), (''a'', ''1'')] \<and>
   \<not> prefix ''a'' ''xb'' \<and>
   allowedLabels \<lparr>labelsFilter_MatchString = prefix ''a''\<rparr> [(''xb'', ''2'')] = Map.empty"
  using allowedLabels_subset [of "[(''a'', ''1''), (''xb'', ''2'')]"
          "\<lparr>labelsFilter_MatchString = prefix ''a''\<rparr>" "[(''xb'', ''2''), (''a'', ''1'')]"]
        allowedLabels_subset [of "[(''xb'', ''2'')]"
          "\<lparr>labelsFilter_MatchString = prefix ''a''\<rparr>" "[]"]
  by auto

subsection \<open>processMetrics\<close>

lemma processMetrics_loop_append:
  "processMetrics_loop e ck ep h (xs @ ys) s =
   processMetrics_loop e ck ep h ys (processMetrics_loop e ck ep h xs s)"
  by (induction xs arbitrary: s) simp_all

lemma body_skipped:
  "\<not> dispatched ck ep h x \<Longrightarrow> processMetrics_body e ck ep h x s = s"
  by (cases s) (auto simp: processMetrics_body_def dispatched_def)

lemma body_hosts:
  "dispatched ck ''hosts'' h x \<Longrightarrow>
   processMetrics_body e ck ''hosts'' h x (fl, st) =
     (Some (allowedLabels e (Labels x)),
      case HostInfo x of
        None \<Rightarrow> emit (setHostStateMetrics (if Name x \<noteq> '''' then Name x else HostName x)
                         (State x) (AgentState x) (Some (allowedLabels e (Labels x)))) st
      | Some info \<Rightarrow>
          emit (setHostInfoMetrics (if Name x \<noteq> '''' then Name x else HostName x) info
                  (Some (allowedLabels e (Labels x))))
            (emit (setHostStateMetrics (if Name x \<noteq> '''' then Name x else HostName x)
                     (State x) (AgentState x) (Some (allowedLabels e (Labels x)))) st))"
  by (auto simp: processMetrics_body_def dispatched_def Let_def split: option.splits)

lemma body_stacks:
  "dispatched ck ''stacks'' h x \<Longrightarrow>
   processMetrics_body e ck ''stacks'' h x (fl, st) =
     (fl, emit (setStackMetrics (Name x) (State x) (HealthState x) (strconv_FormatBool (System x)))
            (st\<lparr>stackRef := storeStackRef (stackRef st) (ID x) (Name x)\<rparr>))"
  by (auto simp: processMetrics_body_def dispatched_def Let_def)

lemma launch_condition:
  "(case LaunchConfig x of
      None \<Rightarrow> fl
    | Some lc \<Rightarrow> if length (LaunchConfig_Labels lc) > 0
                 then Some (allowedLabels e (LaunchConfig_Labels lc)) else fl) =
   (if launchLabels x \<noteq> [] then Some (allowedLabels e (launchLabels x)) else fl)"
  by (simp add: launchLabels_def split: option.splits)

lemma body_services:
  "dispatched ck ''services'' h x \<Longrightarrow>
   processMetrics_body e ck ''services'' h x (fl, st) =
     (if launchLabels x \<noteq> [] then Some (allowedLabels e (launchLabels x)) else fl,
      emit (setServiceMetrics (Name x) (retrieveStackRef (stackRef st) (StackID x)) (State x)
              (HealthState x) (Scale x)
              (if launchLabels x \<noteq> [] then Some (allowedLabels e (launchLabels x)) else fl))
        (if retrieveStackRef (stackRef st) (StackID x) = ''unknown''
         then log_Warnf (''Failed to obtain stack_name for '' @ Name x @ '' from the API'') st
         else st))"
  unfolding processMetrics_body_def dispatched_def Let_def launch_condition
  by auto

text \<open>Emitter calls are only ever appended: the calls made up to a record stay, in order, at
  the front of the calls made by the whole payload.\<close>

lemma body_metrics_prefix:
  "prefix (metrics (snd s)) (metrics (snd (processMetrics_body e ck ep h x s)))"
  by (cases s)
     (simp add: processMetrics_body_def Let_def emit_def log_Warnf_def split: option.splits)

lemma loop_metrics_prefix:
  "prefix (metrics (snd s)) (metrics (snd (processMetrics_loop e ck ep h xs s)))"
proof (induction xs arbitrary: s)
  case Nil
  show ?case by simp
next
  case (Cons x xs)
  have "prefix (metrics (snd s)) (metrics (snd (processMetrics_body e ck ep h x s)))"
    by (rule body_metrics_prefix)
  also have "prefix \<dots> (metrics (snd (processMetrics_loop e ck ep h (x # xs) s)))"
    using Cons.IH by simp
  finally show ?case .
qed

lemma body_services_stackRef:
  "stackRef (snd (processMetrics_body e ck ''services'' h x s)) = stackRef (snd s)"
  by (cases s)
     (simp add: processMetrics_body_def Let_def emit_def log_Warnf_def split: option.splits)

lemma loop_services_stackRef:
  "stackRef (snd (processMetrics_loop e ck ''services'' h xs s)) = stackRef (snd s)"
  by (induction xs arbitrary: s) (simp_all add: body_services_stackRef)

lemma processMetrics_loop_snoc:
  "processMetrics_loop e ck ep h (pre @ [x]) s =
   processMetrics_body e ck ep h x (processMetrics_loop e ck ep h pre s)"
  by (simp add: processMetrics_loop_append)

lemma processMetrics_snd:
  "snd (processMetrics e ck \<lparr>Data = xs\<rparr> ep h st) = snd (processMetrics_loop e ck ep h xs (None, st))"
  by (simp add: processMetrics_def)

text \<open>
  C6: with \<open>hideSystemResources\<close> set, a record with \<open>system = true\<close> anywhere in the
  payload has no effect at all: \<open>processMetrics\<close> returns the same state (reference caches,
  emitter calls, log) and the same error as on the payload without that record.
\<close>

theorem hidden_system_record_no_effect:
  "System x \<Longrightarrow>
   processMetrics e ck \<lparr>Data = pre @ x # post\<rparr> ep True st =
   processMetrics e ck \<lparr>Data = pre @ post\<rparr> ep True st"
proof -
  assume "System x"
  then have "processMetrics_body e ck ep True x s = s" for s
    by (cases s) (simp add: processMetrics_body_def)
  then show ?thesis
    by (simp add: processMetrics_def processMetrics_loop_append)
qed

theorem hidden_system_record_no_effect_witness:
  "System (zeroDataItem\<lparr>ID := ''s1'', Name := ''prod'', System := True\<rparr>) \<and>
   processMetrics \<lparr>labelsFilter_MatchString = prefix ''a''\<rparr> acceptAll
     \<lparr>Data = [] @ zeroDataItem\<lparr>ID := ''s1'', Name := ''prod'', System := True\<rparr> # []\<rparr>
     ''stacks'' True emptyState = (None, emptyState)"
  using hidden_system_record_no_effect
    [of "zeroDataItem\<lparr>ID := ''s1'', Name := ''prod'', System := True\<rparr>"
        "\<lparr>labelsFilter_MatchString = prefix ''a''\<rparr>" acceptAll "[]" "[]" "''stacks''" emptyState]
  by (simp add: processMetrics_def)

text \<open>
  C2, as stated, at a system-owned stack record with \<open>hideSystemResources\<close> set: the record
  is skipped before the store, so the stack reference cache stays empty and the id does not
  resolve.
\<close>

theorem hidden_stack_not_stored:
  "stackRef (snd (processMetrics \<lparr>labelsFilter_MatchString = prefix ''a''\<rparr> acceptAll
     \<lparr>Data = [zeroDataItem\<lparr>ID := ''s1'', Name := ''prod'', System := True\<rparr>]\<rparr>
     ''stacks'' True emptyState)) = [] \<and>
   retrieveStackRef (stackRef (snd (processMetrics \<lparr>labelsFilter_MatchString = prefix ''a''\<rparr> acceptAll
     \<lparr>Data = [zeroDataItem\<lparr>ID := ''s1'', Name := ''prod'', System := True\<rparr>]\<rparr>
     ''stacks'' True emptyState))) ''s1'' = ''unknown''"
  by (simp add: processMetrics_def processMetrics_body_def zeroDataItem_def emptyState_def)

text \<open>
  C2, amended: a stacks-endpoint record that passes the system-resource filter and the type
  check has its pair (id, name) upserted into the stack reference cache, and its stack metric
  is emitted; a record that the system-resource filter or the type check skips leaves the
  cache, and the rest of the state, as it was.
\<close>

theorem stack_stored_when_dispatched:
  "(dispatched ck ''stacks'' h x \<longrightarrow>
      stackRef (snd (processMetrics e ck \<lparr>Data = pre @ [x]\<rparr> ''stacks'' h st)) =
        storeStackRef (stackRef (snd (processMetrics e ck \<lparr>Data = pre\<rparr> ''stacks'' h st))) (ID x) (Name x) \<and>
      metrics (snd (processMetrics e ck \<lparr>Data = pre @ [x]\<rparr> ''stacks'' h st)) =
        metrics (snd (processMetrics e ck \<lparr>Data = pre\<rparr> ''stacks'' h st)) @
        [setStackMetrics (Name x) (State x) (HealthState x) (strconv_FormatBool (System x))]) \<and>
   (\<not> dispatched ck ''stacks'' h x \<longrightarrow>
      processMetrics e ck \<lparr>Data = pre @ [x]\<rparr> ''stacks'' h st =
      processMetrics e ck \<lparr>Data = pre\<rparr> ''stacks'' h st)"
proof (intro conjI impI)
  obtain fl st' where s: "processMetrics_loop e ck ''stacks'' h pre (None, st) = (fl, st')"
    by (cases "processMetrics_loop e ck ''stacks'' h pre (None, st)")
  {
    assume d: "dispatched ck ''stacks'' h x"
    show "stackRef (snd (processMetrics e ck \<lparr>Data = pre @ [x]\<rparr> ''stacks'' h st)) =
        storeStackRef (stackRef (snd (processMetrics e ck \<lparr>Data = pre\<rparr> ''stacks'' h st))) (ID x) (Name x)"
      by (simp add: processMetrics_snd processMetrics_loop_snoc s body_stacks [OF d] emit_def)
    show "metrics (snd (processMetrics e ck \<lparr>Data = pre @ [x]\<rparr> ''stacks'' h st)) =
        metrics (snd (processMetrics e ck \<lparr>Data = pre\<rparr> ''stacks'' h st)) @
        [setStackMetrics (Name x) (State x) (HealthState x) (strconv_FormatBool (System x))]"
      by (simp add: processMetrics_snd processMetrics_loop_snoc s body_stacks [OF d] emit_def)
  }
  show "processMetrics e ck \<lparr>Data = pre @ [x]\<rparr> ''stacks'' h st =
      processMetrics e ck \<lparr>Data = pre\<rparr> ''stacks'' h st"
    if "\<not> dispatched ck ''stacks'' h x"
    using that by (simp add: processMetrics_def processMetrics_loop_append body_skipped)
qed

theorem stack_stored_when_dispatched_witness:
  "dispatched acceptAll ''stacks'' True (zeroDataItem\<lparr>ID := ''s1'', Name := ''prod''\<rparr>) \<and>
   stackRef (snd (processMetrics \<lparr>labelsFilter_MatchString = prefix ''a''\<rparr> acceptAll
     \<lparr>Data = [] @ [zeroDataItem\<lparr>ID := ''s1'', Name := ''prod''\<rparr>]\<rparr> ''stacks'' True emptyState))
     = [(''s1'', ''prod'')] \<and>
   metrics (snd (processMetrics \<lparr>labelsFilter_MatchString = prefix ''a''\<rparr> acceptAll
     \<lparr>Data = [] @ [zeroDataItem\<lparr>ID := ''s1'', Name := ''prod''\<rparr>]\<rparr> ''stacks'' True emptyState))
     = [setStackMetrics ''prod'' '''' '''' ''false''] \<and>
   \<not> dispatched acceptAll ''stacks'' True (zeroDataItem\<lparr>ID := ''s2'', Name := ''infra'', System := True\<rparr>) \<and>
   processMetrics \<lparr>labelsFilter_MatchString = prefix ''a''\<rparr> acceptAll
     \<lparr>Data = [] @ [zeroDataItem\<lparr>ID := ''s2'', Name := ''infra'', System := True\<rparr>]\<rparr> ''stacks'' True emptyState
     = (None, emptyState)"
proof -
  have d: "dispatched acceptAll ''stacks'' True (zeroDataItem\<lparr>ID := ''s1'', Name := ''prod''\<rparr>)"
    by (simp add: dispatched_def acceptAll_def zeroDataItem_def)
  have nd: "\<not> dispatched acceptAll ''stacks'' True
              (zeroDataItem\<lparr>ID := ''s2'', Name := ''infra'', System := True\<rparr>)"
    by (simp add: dispatched_def)
  show ?thesis
    using d nd
      stack_stored_when_dispatched [of acceptAll True "zeroDataItem\<lparr>ID := ''s1'', Name := ''prod''\<rparr>"
        "\<lparr>labelsFilter_MatchString = prefix ''a''\<rparr>" "[]" emptyState]
      stack_stored_when_dispatched [of acceptAll True
        "zeroDataItem\<lparr>ID := ''s2'', Name := ''infra'', System := True\<rparr>"
        "\<lparr>labelsFilter_MatchString = prefix ''a''\<rparr>" "[]" emptyState]
    by (simp add: processMetrics_def storeStackRef_def emptyState_def zeroDataItem_def
          strconv_FormatBool_def)
qed

lemma services_call:
  assumes "dispatched ck ''services'' h x"
  shows "metrics (snd (processMetrics e ck \<lparr>Data = pre @ [x]\<rparr> ''services'' h st)) =
         metrics (snd (processMetrics e ck \<lparr>Data = pre\<rparr> ''services'' h st)) @
         [setServiceMetrics (Name x) (retrieveStackRef (stackRef st) (StackID x)) (State x)
            (HealthState x) (Scale x)
            (if launchLabels x \<noteq> [] then Some (allowedLabels e (launchLabels x))
             else fst (processMetrics_loop e ck ''services'' h pre (None, st)))]"
proof -
  obtain fl st' where s: "processMetrics_loop e ck ''services'' h pre (None, st) = (fl, st')"
    by (cases "processMetrics_loop e ck ''services'' h pre (None, st)")
  have "stackRef (snd (processMetrics_loop e ck ''services'' h pre (None, st))) = stackRef st"
    by (simp add: loop_services_stackRef)
  then have r: "stackRef st' = stackRef st"
    by (simp add: s)
  show ?thesis
    by (simp add: processMetrics_snd processMetrics_loop_snoc s body_services [OF assms] r
          emit_def log_Warnf_def)
qed

text \<open>
  C3: on the services endpoint, the call of \<open>setServiceMetrics\<close> made for a record \<open>x\<close>
  (processed after the records \<open>pre\<close> of the same payload) receives the labels filtered from
  the record's launch-config labels when the launch configuration is present and its label
  set is non-empty; otherwise it receives, unchanged, the value that the variable
  \<open>filteredLabels\<close> holds after the earlier records.
\<close>

theorem services_filtered_labels:
  "dispatched ck ''services'' h x \<Longrightarrow>
   metrics (snd (processMetrics e ck \<lparr>Data = pre @ [x]\<rparr> ''services'' h st)) =
   metrics (snd (processMetrics e ck \<lparr>Data = pre\<rparr> ''services'' h st)) @
   [setServiceMetrics (Name x) (retrieveStackRef (stackRef st) (StackID x)) (State x)
      (HealthState x) (Scale x)
      (case LaunchConfig x of
         None \<Rightarrow> fst (processMetrics_loop e ck ''services'' h pre (None, st))
       | Some lc \<Rightarrow>
           if LaunchConfig_Labels lc \<noteq> [] then Some (allowedLabels e (LaunchConfig_Labels lc))
           else fst (processMetrics_loop e ck ''services'' h pre (None, st)))]"
  by (simp add: services_call launchLabels_def split: option.splits)

theorem services_filtered_labels_witness:
  "dispatched acceptAll ''services'' False (zeroDataItem\<lparr>Name := ''web''\<rparr>) \<and>
   metrics (snd (processMetrics \<lparr>labelsFilter_MatchString = prefix ''a''\<rparr> acceptAll
     \<lparr>Data = [zeroDataItem\<lparr>Name := ''db'',
                LaunchConfig := Some \<lparr>LaunchConfig_Labels = [(''a'', ''1'')]\<rparr>\<rparr>] @
             [zeroDataItem\<lparr>Name := ''web''\<rparr>]\<rparr> ''services'' False emptyState)) =
   [setServiceMetrics ''db'' ''unknown'' '''' '''' 0
      (Some (allowedLabels \<lparr>labelsFilter_MatchString = prefix ''a''\<rparr> [(''a'', ''1'')])),
    setServiceMetrics ''web'' ''unknown'' '''' '''' 0
      (Some (allowedLabels \<lparr>labelsFilter_MatchString = prefix ''a''\<rparr> [(''a'', ''1'')]))]"
proof -
  have d: "dispatched acceptAll ''services'' False (zeroDataItem\<lparr>Name := ''web''\<rparr>)"
    by (simp add: dispatched_def acceptAll_def)
  show ?thesis
    using d services_filtered_labels [OF d, of "\<lparr>labelsFilter_MatchString = prefix ''a''\<rparr>"
      "[zeroDataItem\<lparr>Name := ''db'', LaunchConfig := Some \<lparr>LaunchConfig_Labels = [(''a'', ''1'')]\<rparr>\<rparr>]"
      emptyState]
    by (simp add: processMetrics_def processMetrics_body_def acceptAll_def zeroDataItem_def
          emptyState_def emit_def log_Warnf_def Let_def)
qed

lemma loop_services_unassigned:
  "\<forall>z \<in> set pre. \<not> dispatched ck ''services'' h z \<or> launchLabels z = [] \<Longrightarrow>
   fst (processMetrics_loop e ck ''services'' h pre (fl, st)) = fl"
proof (induction pre arbitrary: st)
  case Nil
  show ?case by simp
next
  case (Cons z pre)
  have "\<exists>st'. processMetrics_body e ck ''services'' h z (fl, st) = (fl, st')"
  proof (cases "dispatched ck ''services'' h z")
    case True
    with Cons.prems have "launchLabels z = []" by simp
    with True show ?thesis by (simp add: body_services)
  next
    case False
    then show ?thesis by (simp add: body_skipped)
  qed
  then obtain st' where "processMetrics_body e ck ''services'' h z (fl, st) = (fl, st')" ..
  with Cons show ?case by simp
qed

lemma body_services_Labels:
  "processMetrics_body e ck ''services'' h (x\<lparr>Labels := l\<rparr>) s =
   processMetrics_body e ck ''services'' h x s"
  by (cases s) (simp add: processMetrics_body_def dataType_def Let_def)

lemma loop_services_Labels:
  "processMetrics_loop e ck ''services'' h (map (\<lambda>z. z\<lparr>Labels := f z\<rparr>) xs) s =
   processMetrics_loop e ck ''services'' h xs s"
  by (induction xs arbitrary: s) (simp_all add: body_services_Labels)

text \<open>
  C10: in one call of \<open>processMetrics\<close> on the services endpoint, when no earlier record of
  the call has assigned \<open>filteredLabels\<close> (each was skipped or had no launch-config labels),
  the call of \<open>setServiceMetrics\<close> for a record without launch-config labels receives the
  nil map, the initial value of the variable. The top-level \<open>labels\<close> field of the records is
  not read on this endpoint: replacing it in every record changes nothing.
\<close>

theorem services_initial_labels:
  "((\<forall>z \<in> set pre. \<not> dispatched ck ''services'' h z \<or> launchLabels z = []) \<and>
    dispatched ck ''services'' h x \<and> launchLabels x = [] \<longrightarrow>
      metrics (snd (processMetrics e ck \<lparr>Data = pre @ [x]\<rparr> ''services'' h st)) =
      metrics (snd (processMetrics e ck \<lparr>Data = pre\<rparr> ''services'' h st)) @
      [setServiceMetrics (Name x) (retrieveStackRef (stackRef st) (StackID x)) (State x)
         (HealthState x) (Scale x) None]) \<and>
   processMetrics e ck \<lparr>Data = map (\<lambda>z. z\<lparr>Labels := f z\<rparr>) xs\<rparr> ''services'' h st =
   processMetrics e ck \<lparr>Data = xs\<rparr> ''services'' h st"
  by (simp add: services_call loop_services_unassigned)
     (simp add: processMetrics_def loop_services_Labels)

theorem services_initial_labels_witness:
  "dispatched acceptAll ''services'' False (zeroDataItem\<lparr>Name := ''web'', Labels := [(''a'', ''1'')]\<rparr>) \<and>
   launchLabels (zeroDataItem\<lparr>Name := ''web'', Labels := [(''a'', ''1'')]\<rparr>) = [] \<and>
   launchLabels (zeroDataItem\<lparr>Name := ''db'', LaunchConfig := Some \<lparr>LaunchConfig_Labels = []\<rparr>\<rparr>) = [] \<and>
   metrics (snd (processMetrics \<lparr>labelsFilter_MatchString = prefix ''a''\<rparr> acceptAll
     \<lparr>Data = [zeroDataItem\<lparr>Name := ''db'', LaunchConfig := Some \<lparr>LaunchConfig_Labels = []\<rparr>\<rparr>] @
             [zeroDataItem\<lparr>Name := ''web'', Labels := [(''a'', ''1'')]\<rparr>]\<rparr> ''services'' False emptyState)) =
   [setServiceMetrics ''db'' ''unknown'' '''' '''' 0 None,
    setServiceMetrics ''web'' ''unknown'' '''' '''' 0 None]"
proof -
  have d: "dispatched acceptAll ''services'' False (zeroDataItem\<lparr>Name := ''web'', Labels := [(''a'', ''1'')]\<rparr>)"
    by (simp add: dispatched_def acceptAll_def)
  have l: "launchLabels (zeroDataItem\<lparr>Name := ''web'', Labels := [(''a'', ''1'')]\<rparr>) = []"
          "launchLabels (zeroDataItem\<lparr>Name := ''db'', LaunchConfig := Some \<lparr>LaunchConfig_Labels = []\<rparr>\<rparr>) = []"
    by (simp_all add: launchLabels_def zeroDataItem_def)
  show ?thesis
    using d l services_initial_labels [of
      "[zeroDataItem\<lparr>Name := ''db'', LaunchConfig := Some \<lparr>LaunchConfig_Labels = []\<rparr>\<rparr>]"
      acceptAll False "zeroDataItem\<lparr>Name := ''web'', Labels := [(''a'', ''1'')]\<rparr>"
      "\<lparr>labelsFilter_MatchString = prefix ''a''\<rparr>" emptyState]
    by (simp add: processMetrics_def processMetrics_body_def acceptAll_def zeroDataItem_def
          emptyState_def emit_def log_Warnf_def Let_def)
qed

text \<open>
  C9: a record dispatched on the hosts endpoint whose \<open>HostInfo\<close> is nil adds exactly one
  emitter call to the state reached after the earlier records, the call of
  \<open>setHostStateMetrics\<close> (the state and agent-state gauges); \<open>setHostInfoMetrics\<close> (the
  CPU, memory and disk-mount gauges) is not called for it, and \<open>processMetrics\<close> returns the
  nil error.
\<close>

theorem host_without_info:
  "dispatched ck ''hosts'' h x \<Longrightarrow> HostInfo x = None \<Longrightarrow>
   snd (processMetrics e ck \<lparr>Data = pre @ [x]\<rparr> ''hosts'' h st) =
     emit (setHostStateMetrics (if Name x \<noteq> '''' then Name x else HostName x) (State x)
             (AgentState x) (Some (allowedLabels e (Labels x))))
       (snd (processMetrics e ck \<lparr>Data = pre\<rparr> ''hosts'' h st)) \<and>
   fst (processMetrics e ck \<lparr>Data = pre @ [x]\<rparr> ''hosts'' h st) = None"
proof -
  assume d: "dispatched ck ''hosts'' h x" and i: "HostInfo x = None"
  obtain fl st' where s: "processMetrics_loop e ck ''hosts'' h pre (None, st) = (fl, st')"
    by (cases "processMetrics_loop e ck ''hosts'' h pre (None, st)")
  show ?thesis
    by (simp add: processMetrics_snd processMetrics_loop_snoc s body_hosts [OF d] i)
       (simp add: processMetrics_def)
qed

theorem host_without_info_witness:
  "dispatched acceptAll ''hosts'' True (zeroDataItem\<lparr>HostName := ''node1'', State := ''active''\<rparr>) \<and>
   HostInfo (zeroDataItem\<lparr>HostName := ''node1'', State := ''active''\<rparr>) = None \<and>
   metrics (snd (processMetrics \<lparr>labelsFilter_MatchString = prefix ''a''\<rparr> acceptAll
     \<lparr>Data = [] @ [zeroDataItem\<lparr>HostName := ''node1'', State := ''active''\<rparr>]\<rparr> ''hosts'' True emptyState)) =
   [setHostStateMetrics ''node1'' ''active'' ''''
      (Some (allowedLabels \<lparr>labelsFilter_MatchString = prefix ''a''\<rparr> []))]"
proof -
  have d: "dispatched acceptAll ''hosts'' True (zeroDataItem\<lparr>HostName := ''node1'', State := ''active''\<rparr>)"
    by (simp add: dispatched_def acceptAll_def zeroDataItem_def)
  have i: "HostInfo (zeroDataItem\<lparr>HostName := ''node1'', State := ''active''\<rparr>) = None"
    by (simp add: zeroDataItem_def)
  show ?thesis
    using d i host_without_info [OF d i, of "\<lparr>labelsFilter_MatchString = prefix ''a''\<rparr>" "[]" emptyState]
    by (simp add: processMetrics_def emit_def emptyState_def zeroDataItem_def)
qed

lemma body_stacks_stackRef:
  "dispatched ck ''stacks'' h z \<Longrightarrow>
   stackRef (snd (processMetrics_body e ck ''stacks'' h z s)) =
   AList.update (ID z) (Name z) (stackRef (snd s))"
  by (cases s) (simp add: body_stacks emit_def storeStackRef_def)

lemma body_stacks_keeps:
  assumes "dispatched ck ''stacks'' h z \<and> ID z = k \<longrightarrow> Name z = n"
    and "map_of (stackRef (snd s)) k = Some n"
  shows "map_of (stackRef (snd (processMetrics_body e ck ''stacks'' h z s))) k = Some n"
proof (cases "dispatched ck ''stacks'' h z")
  case True
  then have "map_of (stackRef (snd (processMetrics_body e ck ''stacks'' h z s))) k =
             ((map_of (stackRef (snd s)))(ID z \<mapsto> Name z)) k"
    by (simp only: body_stacks_stackRef update_conv')
  with True assms show ?thesis
    by (cases "ID z = k") simp_all
next
  case False
  then have "processMetrics_body e ck ''stacks'' h z s = s"
    by (rule body_skipped)
  with assms(2) show ?thesis by simp
qed

lemma loop_stacks_keeps:
  "\<forall>z \<in> set xs. dispatched ck ''stacks'' h z \<and> ID z = k \<longrightarrow> Name z = n \<Longrightarrow>
   map_of (stackRef (snd s)) k = Some n \<Longrightarrow>
   map_of (stackRef (snd (processMetrics_loop e ck ''stacks'' h xs s))) k = Some n"
proof (induction xs arbitrary: s)
  case Nil
  then show ?case by simp
next
  case (Cons z xs)
  from Cons.prems have "dispatched ck ''stacks'' h z \<and> ID z = k \<longrightarrow> Name z = n"
    by simp
  then have "map_of (stackRef (snd (processMetrics_body e ck ''stacks'' h z s))) k = Some n"
    using Cons.prems(2) by (rule body_stacks_keeps)
  moreover from Cons.prems have "\<forall>z \<in> set xs. dispatched ck ''stacks'' h z \<and> ID z = k \<longrightarrow> Name z = n"
    by simp
  ultimately have "map_of (stackRef (snd (processMetrics_loop e ck ''stacks'' h xs
      (processMetrics_body e ck ''stacks'' h z s)))) k = Some n"
    by (intro Cons.IH)
  then show ?case by simp
qed

lemma loop_stacks_stores:
  assumes "x \<in> set xs" "dispatched ck ''stacks'' h x"
    and "\<forall>z \<in> set xs. dispatched ck ''stacks'' h z \<and> ID z = ID x \<longrightarrow> Name z = Name x"
  shows "map_of (stackRef (snd (processMetrics_loop e ck ''stacks'' h xs s))) (ID x) = Some (Name x)"
proof -
  from assms(1) obtain ys zs where xs: "xs = ys @ x # zs"
    by (auto simp: in_set_conv_decomp)
  let ?s1 = "processMetrics_body e ck ''stacks'' h x (processMetrics_loop e ck ''stacks'' h ys s)"
  have "map_of (stackRef (snd ?s1)) (ID x) = Some (Name x)"
    by (simp only: body_stacks_stackRef [OF assms(2)] update_conv') simp
  moreover have "\<forall>z \<in> set zs. dispatched ck ''stacks'' h z \<and> ID z = ID x \<longrightarrow> Name z = Name x"
    using assms(3) by (simp add: xs)
  ultimately have "map_of (stackRef (snd (processMetrics_loop e ck ''stacks'' h zs ?s1))) (ID x) = Some (Name x)"
    by (intro loop_stacks_keeps)
  then show ?thesis
    by (simp add: xs processMetrics_loop_append)
qed

text \<open>
  C7: when \<open>processMetrics\<close> has run on a stacks payload that contains a dispatched record
  \<open>x\<close> with a non-empty id (the records of the payload that share the id share the name),
  and then runs on a services payload, the call of \<open>setServiceMetrics\<close> for a dispatched
  record \<open>y\<close> whose \<open>stackId\<close> is that id carries the name of \<open>x\<close> as its stack name.
  The instance below is the one of the claim: id \<open>s1\<close>, name \<open>prod\<close>, service \<open>web\<close>.
\<close>

theorem service_carries_stack_name:
  assumes "x \<in> set xs" and "dispatched ck ''stacks'' h1 x" and "ID x \<noteq> ''''"
    and "\<forall>z \<in> set xs. dispatched ck ''stacks'' h1 z \<and> ID z = ID x \<longrightarrow> Name z = Name x"
    and "dispatched ck ''services'' h2 y" and "StackID y = ID x"
  shows "metrics (snd (processMetrics e ck \<lparr>Data = pre @ [y]\<rparr> ''services'' h2
                    (snd (processMetrics e ck \<lparr>Data = xs\<rparr> ''stacks'' h1 st)))) =
         metrics (snd (processMetrics e ck \<lparr>Data = pre\<rparr> ''services'' h2
                    (snd (processMetrics e ck \<lparr>Data = xs\<rparr> ''stacks'' h1 st)))) @
         [setServiceMetrics (Name y) (Name x) (State y) (HealthState y) (Scale y)
            (if launchLabels y \<noteq> [] then Some (allowedLabels e (launchLabels y))
             else fst (processMetrics_loop e ck ''services'' h2 pre
                         (None, snd (processMetrics e ck \<lparr>Data = xs\<rparr> ''stacks'' h1 st))))]"
proof -
  define st1 where "st1 = snd (processMetrics e ck \<lparr>Data = xs\<rparr> ''stacks'' h1 st)"
  have "st1 = snd (processMetrics_loop e ck ''stacks'' h1 xs (None, st))"
    by (simp add: st1_def processMetrics_snd)
  then have "map_of (stackRef st1) (ID x) = Some (Name x)"
    using loop_stacks_stores [OF assms(1,2,4)] by simp
  with assms(3,6) have "retrieveStackRef (stackRef st1) (StackID y) = Name x"
    by (simp add: retrieveStackRef_map_of)
  then show ?thesis
    using services_call [OF assms(5), of e pre st1] unfolding st1_def by simp
qed

theorem service_carries_stack_name_witness:
  "dispatched acceptAll ''stacks'' False (zeroDataItem\<lparr>ID := ''s1'', Name := ''prod''\<rparr>) \<and>
   dispatched acceptAll ''services'' False (zeroDataItem\<lparr>StackID := ''s1'', Name := ''web''\<rparr>) \<and>
   metrics (snd (processMetrics \<lparr>labelsFilter_MatchString = prefix ''a''\<rparr> acceptAll
      \<lparr>Data = [] @ [zeroDataItem\<lparr>StackID := ''s1'', Name := ''web''\<rparr>]\<rparr> ''services'' False
      (snd (processMetrics \<lparr>labelsFilter_MatchString = prefix ''a''\<rparr> acceptAll
         \<lparr>Data = [zeroDataItem\<lparr>ID := ''s1'', Name := ''prod''\<rparr>]\<rparr> ''stacks'' False emptyState)))) =
   [setStackMetrics ''prod'' '''' '''' ''false'', setServiceMetrics ''web'' ''prod'' '''' '''' 0 None]"
proof -
  have d1: "dispatched acceptAll ''stacks'' False (zeroDataItem\<lparr>ID := ''s1'', Name := ''prod''\<rparr>)"
    and d2: "dispatched acceptAll ''services'' False (zeroDataItem\<lparr>StackID := ''s1'', Name := ''web''\<rparr>)"
    by (simp_all add: dispatched_def acceptAll_def)
  have m: "zeroDataItem\<lparr>ID := ''s1'', Name := ''prod''\<rparr> \<in> set [zeroDataItem\<lparr>ID := ''s1'', Name := ''prod''\<rparr>]"
    and i: "ID (zeroDataItem\<lparr>ID := ''s1'', Name := ''prod''\<rparr>) \<noteq> ''''"
    and u: "\<forall>z \<in> set [zeroDataItem\<lparr>ID := ''s1'', Name := ''prod''\<rparr>].
              dispatched acceptAll ''stacks'' False z \<and> ID z = ID (zeroDataItem\<lparr>ID := ''s1'', Name := ''prod''\<rparr>)
              \<longrightarrow> Name z = Name (zeroDataItem\<lparr>ID := ''s1'', Name := ''prod''\<rparr>)"
    and k: "StackID (zeroDataItem\<lparr>StackID := ''s1'', Name := ''web''\<rparr>) =
            ID (zeroDataItem\<lparr>ID := ''s1'', Name := ''prod''\<rparr>)"
    by simp_all
  have e1: "snd (processMetrics \<lparr>labelsFilter_MatchString = prefix ''a''\<rparr> acceptAll
         \<lparr>Data = [zeroDataItem\<lparr>ID := ''s1'', Name := ''prod''\<rparr>]\<rparr> ''stacks'' False emptyState) =
        \<lparr>stackRef = [(''s1'', ''prod'')], clusterRef = [],
         metrics = [setStackMetrics ''prod'' '''' '''' ''false''], logged = []\<rparr>"
    by (simp add: processMetrics_def processMetrics_body_def acceptAll_def Let_def emit_def
          storeStackRef_def emptyState_def strconv_FormatBool_def zeroDataItem_def)
  show ?thesis
    using d1 d2
      service_carries_stack_name [OF m d1 i u d2 k,
        of "\<lparr>labelsFilter_MatchString = prefix ''a''\<rparr>" "[]" emptyState]
    unfolding e1
    by (simp add: processMetrics_def launchLabels_def zeroDataItem_def)
qed

subsection \<open>getJSON and gatherData\<close>

lemma getJSON_decode_failure:
  "NewRequest_err http = None \<Longrightarrow> Do_resp http = Some resp \<Longrightarrow> Body_Decode resp = Inl err \<Longrightarrow>
   snd (getJSON url accessKey secretKey http) = Return (Inl err) \<and>
   snd (gatherData rancherURL resourceLimit accessKey secretKey endpoint http) = Return (None, Some err)"
  by (simp add: getJSON_def gatherData_def Let_def split: option.splits)

lemma getJSON_transport_failure:
  "Do_resp http = None \<Longrightarrow> snd (getJSON url accessKey secretKey http) = Panic"
  by (simp add: getJSON_def Let_def split: option.splits)

lemma getJSON_status_ignored:
  "NewRequest_err http = None \<Longrightarrow> Do_resp http = Some resp \<Longrightarrow>
   snd (getJSON url accessKey secretKey http) = Return (Body_Decode resp)"
  by (simp add: getJSON_def Let_def split: option.splits)

lemma gatherData_null_body:
  "NewRequest_err http = None \<Longrightarrow> Do_resp http = Some resp \<Longrightarrow> Body_Decode resp = Inr None \<Longrightarrow>
   snd (gatherData rancherURL resourceLimit accessKey secretKey endpoint http) = Return (None, None)"
  by (simp add: getJSON_def gatherData_def Let_def split: option.splits)

text \<open>
  C1 at two failing inputs. When \<open>client.Do\<close> fails (no response, an error), \<open>getJSON\<close>
  logs the error and then reads the status code of the nil response: it panics, and so does
  \<open>gatherData\<close>. When the server answers 401 with a body that decodes, \<open>getJSON\<close> logs the
  status and returns the nil error, and \<open>gatherData\<close> returns the decoded data with a nil
  error. Only a decode failure is returned as an error (\<open>getJSON_decode_failure\<close>).
\<close>

theorem getJSON_failures_not_surfaced:
  "getJSON ''http://h/v2-beta/hosts/?limit=100'' ''key'' ''secret''
     \<lparr>NewRequest_err = None, Do_resp = None, Do_err = Some ''connection refused''\<rparr> =
     ([Info ''Scraping: http://h/v2-beta/hosts/?limit=100'',
       Error ''Error Collecting JSON from API: connection refused''], Panic) \<and>
   snd (gatherData ''http://h/v1'' ''100'' ''key'' ''secret'' ''hosts''
     \<lparr>NewRequest_err = None, Do_resp = None, Do_err = Some ''connection refused''\<rparr>) = Panic \<and>
   getJSON ''http://h/v2-beta/hosts/?limit=100'' ''key'' ''secret''
     \<lparr>NewRequest_err = None,
      Do_resp = Some \<lparr>StatusCode = 401, Status = ''401 Unauthorized'', Body_Decode = Inr (Some \<lparr>Data = []\<rparr>)\<rparr>,
      Do_err = None\<rparr> =
     ([Info ''Scraping: http://h/v2-beta/hosts/?limit=100'',
       Error ''Error Collecting JSON from API: 401 Unauthorized''], Return (Inr (Some \<lparr>Data = []\<rparr>))) \<and>
   snd (gatherData ''http://h/v1'' ''100'' ''key'' ''secret'' ''hosts''
     \<lparr>NewRequest_err = None,
      Do_resp = Some \<lparr>StatusCode = 401, Status = ''401 Unauthorized'', Body_Decode = Inr (Some \<lparr>Data = []\<rparr>)\<rparr>,
      Do_err = None\<rparr>) = Return (Some \<lparr>Data = []\<rparr>, None)"
  by (simp add: getJSON_def gatherData_def setEndpoint_def Let_def)

end
